theory Spec2Isabelle
  imports Main "HOL-Library.Word" "HOL-Library.Log_Nat" "HOL-Library.Multiset"
begin

section \<open>JavaScript numbers and canvas bytes\<close>

text \<open>
  The pixel pass of \<open>simulateEnhancement\<close> reads bytes from the canvas's
  \<open>ImageData.data\<close> (a \<open>Uint8ClampedArray\<close>), computes with JavaScript Numbers
  (IEEE binary64) and stores the results back into the same byte array.

  A Number is modelled by the rational it denotes, or \<open>NaN\<close>; infinities do not arise
  in this program. Every arithmetic result is rounded to binary64 by \<open>fl64\<close>
  (round to nearest, ties to even, 53 significant bits). All values that occur here lie
  between \<open>2\<^sup>-\<^sup>4\<close> and \<open>2\<^sup>9\<close> or are zero, far from the subnormal and overflow ranges,
  which \<open>fl64\<close> therefore leaves out.
\<close>

datatype number = NaN | Num rat

definition round_half_even :: "rat \<Rightarrow> int" where
  "round_half_even x =
     (let f = \<lfloor>x\<rfloor>; d = x - of_int f
      in if d < 1 / 2 then f else if 1 / 2 < d then f + 1 else if even f then f else f + 1)"

text \<open>\<open>ilog2 x\<close> is the binary exponent of a non-zero \<open>x\<close>: \<open>2\<^sup>e \<le> |x| < 2\<^sup>e\<^sup>+\<^sup>1\<close>.\<close>

definition ilog2 :: "rat \<Rightarrow> int" where
  "ilog2 x =
     (let (p, q) = quotient_of \<bar>x\<bar>; d = bitlen p - bitlen q
      in if 2 powi d \<le> \<bar>x\<bar> then d else d - 1)"

definition fl64 :: "rat \<Rightarrow> rat" where
  "fl64 x =
     (if x = 0 then 0
      else let ulp = 2 powi (ilog2 x - 52)
           in of_int (round_half_even (x / ulp)) * ulp)"

text \<open>The operators \<open>*\<close> and \<open>+\<close> on Numbers, and \<open>Math.min\<close>: \<open>NaN\<close> is contagious.\<close>

fun js_times :: "number \<Rightarrow> number \<Rightarrow> number" where
  "js_times (Num x) (Num y) = Num (fl64 (x * y))"
| "js_times _ _ = NaN"

fun js_plus :: "number \<Rightarrow> number \<Rightarrow> number" where
  "js_plus (Num x) (Num y) = Num (fl64 (x + y))"
| "js_plus _ _ = NaN"

fun Math_min :: "number \<Rightarrow> number \<Rightarrow> number" where
  "Math_min (Num x) (Num y) = Num (min x y)"
| "Math_min _ _ = NaN"

text \<open>A decimal literal of the source denotes the nearest binary64 value.\<close>

definition literal :: "rat \<Rightarrow> number" where
  "literal x = Num (fl64 x)"

text \<open>
  Storing a Number into a \<open>Uint8ClampedArray\<close> element (the conversion ToUint8Clamp):
  \<open>NaN\<close> becomes 0, the value is clamped to \<open>0..255\<close> and rounded to the nearest integer,
  ties to even.
\<close>

fun ToUint8Clamp :: "number \<Rightarrow> 8 word" where
  "ToUint8Clamp NaN = 0"
| "ToUint8Clamp (Num x) = word_of_int (round_half_even (min 255 (max 0 x)))"

text \<open>
  Reading \<open>data[i]\<close>: a byte inside the array; beyond its end the read gives
  \<open>undefined\<close>, which arithmetic turns into \<open>NaN\<close>. A store beyond the end of a typed
  array is ignored, which is what \<open>xs[i := v]\<close> does.
\<close>

definition get :: "8 word list \<Rightarrow> nat \<Rightarrow> number" where
  "get data i = (if i < length data then Num (of_nat (unat (data ! i))) else NaN)"

section \<open>The enhancement transform (\<open>simulateEnhancement\<close>, canvas version)\<close>

text \<open>
  \<^verbatim>\<open>
  for (let i = 0; i < data.length; i += 4) {
    const gray = data[i] * 0.299 + data[i + 1] * 0.587 + data[i + 2] * 0.114;
    const enhanced = Math.min(255, gray * 1.2);
    data[i] = enhanced; data[i + 1] = enhanced; data[i + 2] = enhanced;
  }
  \<close>
\<close>

definition gray :: "8 word list \<Rightarrow> nat \<Rightarrow> number" where
  "gray data i =
     js_plus (js_plus (js_times (get data i) (literal (299 / 1000)))
                      (js_times (get data (i + 1)) (literal (587 / 1000))))
             (js_times (get data (i + 2)) (literal (114 / 1000)))"

definition enhanced :: "8 word list \<Rightarrow> nat \<Rightarrow> number" where
  "enhanced data i = Math_min (Num 255) (js_times (gray data i) (literal (12 / 10)))"

function pixel_loop :: "nat \<Rightarrow> 8 word list \<Rightarrow> 8 word list" where
  "pixel_loop i data =
     (if i < length data
      then let e = ToUint8Clamp (enhanced data i)
           in pixel_loop (i + 4) (data[i := e, i + 1 := e, i + 2 := e])
      else data)"
  by pat_completeness auto
termination
  by (relation "measure (\<lambda>(i, data). length data - i)") auto

declare pixel_loop.simps [simp del]

text \<open>The contract of the specification, in exact arithmetic.\<close>

definition spec_luma :: "rat \<Rightarrow> rat \<Rightarrow> rat \<Rightarrow> rat" where
  "spec_luma R G B = 299 / 1000 * R + 587 / 1000 * G + 114 / 1000 * B"

definition spec_enhanced :: "rat \<Rightarrow> rat \<Rightarrow> rat \<Rightarrow> rat" where
  "spec_enhanced R G B = min 255 (spec_luma R G B * (12 / 10))"

definition channel :: "8 word \<Rightarrow> rat" where
  "channel w = of_nat (unat w)"


section \<open>Browser-side state shared by the two views\<close>

text \<open>
  Everything a handler does to the outside world is logged in the state it returns:
  the toasts shown, the HTTP requests issued (paths are relative to \<open>${API}\<close>) and the
  files handed to the browser's download mechanism (\<open>link.download\<close>, \<open>link.click()\<close>).
  Timer delays (\<open>setTimeout\<close>) are not modelled.
\<close>

record file_obj =
  file_name :: string
  file_type :: string
  file_size :: nat
  file_raster :: "8 word list option"

text \<open>
  \<open>file_raster\<close> is the RGBA raster the browser decodes from the file's bytes, or
  \<open>None\<close> when the bytes are not a decodable image.
\<close>

datatype image_src = DataURL (mime: string) (raster: "8 word list option") | URL string

record toast_msg =
  title :: string
  description :: string
  variant :: "string option"

datatype request = POST string "file_obj option" | GET string

datatype 'a promise = Resolved 'a | Rejected "string option"

record browser =
  toasts :: "toast_msg list"
  requests :: "request list"
  downloads :: "(string \<times> 8 word list) list"

definition toast :: "toast_msg \<Rightarrow> 'a browser_scheme \<Rightarrow> 'a browser_scheme" where
  "toast t st = st\<lparr>toasts := toasts st @ [t]\<rparr>"

definition axios :: "request \<Rightarrow> 'a browser_scheme \<Rightarrow> 'a browser_scheme" where
  "axios r st = st\<lparr>requests := requests st @ [r]\<rparr>"

definition click_download :: "string \<Rightarrow> 8 word list \<Rightarrow> 'a browser_scheme \<Rightarrow> 'a browser_scheme" where
  "click_download filename bytes st = st\<lparr>downloads := downloads st @ [(filename, bytes)]\<rparr>"

section \<open>Job records and the mock API (\<open>mockData.js\<close>)\<close>

text \<open>
  A job record's \<open>id\<close> is the field \<open>job_id\<close>; the \<open>processingTime\<close> of an
  enhancement response is the selector \<open>processingSeconds\<close>, the job record having a
  field of that name already.
\<close>

record job =
  job_id :: string
  originalImageName :: string
  enhancedImageName :: "string option"
  uploadDate :: string
  enhancementType :: string
  status :: string
  processingTime :: "number option"

definition mockEnhancementHistory :: "job list" where
  "mockEnhancementHistory =
     [\<lparr>job_id = ''1'', originalImageName = ''brain_scan_001.png'',
       enhancedImageName = Some ''enhanced_brain_scan_001.png'',
       uploadDate = ''2025-01-15T10:30:00Z'', enhancementType = ''Grayscale + Sharpening'',
       status = ''Completed'', processingTime = Some (literal (15 / 10))\<rparr>,
      \<lparr>job_id = ''2'', originalImageName = ''chest_xray_002.jpg'',
       enhancedImageName = Some ''enhanced_chest_xray_002.png'',
       uploadDate = ''2025-01-14T15:45:00Z'', enhancementType = ''Grayscale + Sharpening'',
       status = ''Completed'', processingTime = Some (literal (21 / 10))\<rparr>,
      \<lparr>job_id = ''3'', originalImageName = ''mri_scan_003.png'',
       enhancedImageName = Some ''enhanced_mri_scan_003.png'',
       uploadDate = ''2025-01-13T09:15:00Z'', enhancementType = ''Grayscale + Sharpening'',
       status = ''Completed'', processingTime = Some (literal (18 / 10))\<rparr>]"

datatype response =
    UploadResponse (success: bool) (imageId: string) (message: string) (originalImageUrl: string)
  | EnhanceResponse (success: bool) (enhancedImageUrl: string) (processingSeconds: number)
      (message: string)
  | HistoryResponse (success: bool) (data: "job list")

text \<open>
  \<open>substr\<close> is \<open>String.prototype.substr(start, length)\<close>. The argument \<open>random36\<close>
  of \<open>uploadImage\<close> is the string \<open>Math.random().toString(36)\<close>, for instance
  \<open>0.4fzyo82mvyr\<close>, or \<open>0.i\<close> when \<open>Math.random()\<close> returns \<open>0.5\<close>; the argument
  \<open>random\<close> of \<open>enhanceImage\<close> is the value of \<open>Math.random()\<close>.
\<close>

definition substr :: "nat \<Rightarrow> nat \<Rightarrow> string \<Rightarrow> string" where
  "substr start len s = take len (drop start s)"

definition uploadImage :: "'formData \<Rightarrow> string \<Rightarrow> response promise" where
  "uploadImage formData random36 =
     Resolved (UploadResponse True (substr 2 9 random36) ''Image uploaded successfully''
                 ''/mock-image-url'')"

definition enhanceImage :: "string \<Rightarrow> rat \<Rightarrow> response promise" where
  "enhanceImage image_id random =
     Resolved (EnhanceResponse True ''/mock-enhanced-url''
                 (js_plus (js_times (Num random) (Num 2)) (Num 1))
                 ''Image enhanced successfully'')"

definition getEnhancementHistory :: "response promise" where
  "getEnhancementHistory = Resolved (HistoryResponse True mockEnhancementHistory)"

text \<open>
  Upload dates are ISO 8601 UTC strings of one fixed layout; the number read off their
  digits (\<open>20250115103000\<close> for \<open>2025-01-15T10:30:00Z\<close>) orders them in time.
\<close>

definition is_digit :: "char \<Rightarrow> bool" where
  "is_digit c = (48 \<le> (of_char c :: nat) \<and> (of_char c :: nat) \<le> 57)"

definition utc_key :: "string \<Rightarrow> nat" where
  "utc_key s = foldl (\<lambda>n c. 10 * n + (of_char c - 48)) 0 (filter is_digit s)"

definition uploaded_after :: "job \<Rightarrow> job \<Rightarrow> bool" where
  "uploaded_after a b = (utc_key (uploadDate b) < utc_key (uploadDate a))"

section \<open>The history view (\<open>EnhancementHistory.jsx\<close>)\<close>

record enhancement_history = browser +
  history :: "job list"
  loading :: bool

definition EnhancementHistory_init :: enhancement_history where
  "EnhancementHistory_init =
     \<lparr>toasts = [], requests = [], downloads = [], history = [], loading = True\<rparr>"

text \<open>The first version of the view loads the history from the mock API.\<close>

definition loadHistory_mock :: "enhancement_history \<Rightarrow> enhancement_history" where
  "loadHistory_mock st =
     (let st1 = (case getEnhancementHistory of
                   Resolved response \<Rightarrow>
                     if success response then st\<lparr>history := data response\<rparr> else st
                 | Rejected _ \<Rightarrow> st)
      in st1\<lparr>loading := False\<rparr>)"

text \<open>The current version asks the server; \<open>reply\<close> is what \<open>GET /images/history\<close> returns.\<close>

definition loadHistory :: "response promise \<Rightarrow> enhancement_history \<Rightarrow> enhancement_history" where
  "loadHistory reply st =
     (let st0 = axios (GET ''/images/history'') st;
          st1 = (case reply of
                   Resolved response \<Rightarrow>
                     if success response then st0\<lparr>history := data response\<rparr> else st0
                 | Rejected _ \<Rightarrow>
                     toast \<lparr>title = ''Failed to load history'',
                            description = ''Could not fetch enhancement history'',
                            variant = Some ''destructive''\<rparr> st0)
      in st1\<lparr>loading := False\<rparr>)"

text \<open>
  \<open>contentDisposition.match(/filename=(.+)/)\<close>: the leftmost occurrence of
  \<open>filename=\<close> that is followed by at least one character other than a line terminator;
  the group is the rest of that line. Header values are taken as ASCII, where the line
  terminators are LF and CR.
\<close>

definition line_terminator :: "char \<Rightarrow> bool" where
  "line_terminator c = (c = CHR 0x0A \<or> c = CHR 0x0D)"

fun filename_match :: "string \<Rightarrow> string option" where
  "filename_match [] = None"
| "filename_match (c # cs) =
     (let rest = drop 9 (c # cs)
      in if take 9 (c # cs) = ''filename='' \<and> takeWhile (\<lambda>x. \<not> line_terminator x) rest \<noteq> []
         then Some (takeWhile (\<lambda>x. \<not> line_terminator x) rest)
         else filename_match cs)"

text \<open>
  \<^verbatim>\<open>
  let filename = <fallback>;
  if (contentDisposition) {
    const filenameMatch = contentDisposition.match(/filename=(.+)/);
    if (filenameMatch) filename = filenameMatch[1].replace(/"/g, '');
  }
  \<close>
\<close>

definition header_filename :: "string \<Rightarrow> string option \<Rightarrow> string" where
  "header_filename fallback contentDisposition =
     (case contentDisposition of
        None \<Rightarrow> fallback
      | Some h \<Rightarrow>
          (case filename_match h of
             None \<Rightarrow> fallback
           | Some m \<Rightarrow> filter (\<lambda>c. c \<noteq> CHR 0x22) m))"

record download_response =
  content_disposition :: "string option"
  blob :: "8 word list"

definition download_disabled :: "job \<Rightarrow> bool" where
  "download_disabled item = (status item \<noteq> ''Completed'')"

definition handleDownload ::
  "download_response promise \<Rightarrow> job \<Rightarrow> enhancement_history \<Rightarrow> enhancement_history" where
  "handleDownload reply item st =
     (if status item \<noteq> ''Completed''
      then toast \<lparr>title = ''Download not available'',
                  description = ''Enhancement not completed yet'',
                  variant = Some ''destructive''\<rparr> st
      else
        let st1 = axios (GET (''/images/'' @ job_id item @ ''/download'')) st
        in case reply of
             Rejected _ \<Rightarrow>
               toast \<lparr>title = ''Download failed'',
                      description = ''Could not download the enhanced image'',
                      variant = Some ''destructive''\<rparr> st1
           | Resolved response \<Rightarrow>
               let fallback = (case enhancedImageName item of
                                None \<Rightarrow> ''enhanced_'' @ originalImageName item @ ''.png''
                              | Some n \<Rightarrow>
                                  if n \<noteq> [] then n
                                  else ''enhanced_'' @ originalImageName item @ ''.png'');
                   filename = header_filename fallback (content_disposition response)
               in toast \<lparr>title = ''Download started'',
                         description = ''Downloading '' @ filename,
                         variant = None\<rparr>
                    (click_download filename (blob response) st1))"


section \<open>The upload view (\<open>ImageUpload.jsx\<close>)\<close>

record image_upload = browser +
  originalImage :: "image_src option"
  enhancedImage :: "image_src option"
  isProcessing :: bool
  isUploading :: bool
  uploadedFile :: "file_obj option"
  currentImageId :: "string option"

text \<open>The initial values of the \<open>useState\<close> hooks, with nothing logged yet.\<close>

definition ImageUpload_init :: image_upload where
  "ImageUpload_init =
     \<lparr>toasts = [], requests = [], downloads = [],
      originalImage = None, enhancedImage = None, isProcessing = False, isUploading = False,
      uploadedFile = None, currentImageId = None\<rparr>"

definition validTypes :: "string list" where
  "validTypes = [''image/jpeg'', ''image/jpg'', ''image/png'']"

definition readAsDataURL :: "file_obj \<Rightarrow> image_src" where
  "readAsDataURL f = DataURL (file_type f) (file_raster f)"

definition invalid_type_toast :: toast_msg where
  "invalid_type_toast =
     \<lparr>title = ''Invalid file type'',
      description = ''Please upload a JPG, JPEG, or PNG image.'',
      variant = Some ''destructive''\<rparr>"

definition too_large_toast :: toast_msg where
  "too_large_toast =
     \<lparr>title = ''File too large'',
      description = ''Please upload an image smaller than 10MB.'',
      variant = Some ''destructive''\<rparr>"

subsection \<open>First version: everything happens in the browser, on a canvas\<close>

text \<open>
  The handler with the file read done: \<open>reader.onload\<close> sets the preview, resets the
  enhanced image and reports success.
\<close>

definition handleFileSelect_canvas :: "file_obj option \<Rightarrow> image_upload \<Rightarrow> image_upload" where
  "handleFileSelect_canvas selected st =
     (case selected of
        None \<Rightarrow> st
      | Some f \<Rightarrow>
          if file_type f \<notin> set validTypes then toast invalid_type_toast st
          else if file_size f > 10 * 1024 * 1024 then toast too_large_toast st
          else toast \<lparr>title = ''Image uploaded successfully'',
                      description = ''You can now enhance your medical image.'',
                      variant = None\<rparr>
                 (st\<lparr>uploadedFile := Some f,
                     originalImage := Some (readAsDataURL f),
                     enhancedImage := None\<rparr>))"

text \<open>
  \<open>simulateEnhancement\<close> draws the original on the canvas, runs the pixel loop over
  its data and reads the canvas back with \<open>canvas.toDataURL('image/png')\<close>. The image's
  \<open>onload\<close> handler runs only when the source decodes; otherwise the view stays in
  processing. The raster of the resulting data URL is the image data written back to the
  canvas, which is what the PNG holds (for pixels that are not opaque, up to the
  canvas's own alpha handling).
\<close>

definition simulateEnhancement :: "image_upload \<Rightarrow> image_upload" where
  "simulateEnhancement st =
     (case originalImage st of
        None \<Rightarrow> st
      | Some img \<Rightarrow>
          let st1 = st\<lparr>isProcessing := True\<rparr>
          in case img of
               DataURL m (Some pixels) \<Rightarrow>
                 toast \<lparr>title = ''Enhancement completed'',
                        description = ''Your medical image has been enhanced successfully.'',
                        variant = None\<rparr>
                   (st1\<lparr>enhancedImage := Some (DataURL ''image/png'' (Some (pixel_loop 0 pixels))),
                        isProcessing := False\<rparr>)
             | _ \<Rightarrow> st1)"

subsection \<open>Current version: the file goes to the server\<close>

text \<open>
  The handler is asynchronous, so it is three events. \<open>handleFileSelect\<close> is the handler
  up to its \<open>await\<close>: the checks, the state updates and the request. \<open>reader_onload\<close>
  is the preview read completing, and \<open>handleFileSelect_await\<close> is the handler's
  continuation once \<open>POST /images/upload\<close> has settled; these two happen later, in either
  order.
\<close>

definition handleFileSelect :: "file_obj option \<Rightarrow> image_upload \<Rightarrow> image_upload" where
  "handleFileSelect selected st =
     (case selected of
        None \<Rightarrow> st
      | Some f \<Rightarrow>
          if file_type f \<notin> set validTypes then toast invalid_type_toast st
          else if file_size f > 10 * 1024 * 1024 then toast too_large_toast st
          else axios (POST ''/images/upload'' (Some f))
                 (st\<lparr>uploadedFile := Some f,
                     isUploading := True,
                     enhancedImage := None,
                     currentImageId := None\<rparr>))"

definition reader_onload :: "file_obj \<Rightarrow> image_upload \<Rightarrow> image_upload" where
  "reader_onload f st = st\<lparr>originalImage := Some (readAsDataURL f)\<rparr>"

definition handleFileSelect_await :: "response promise \<Rightarrow> image_upload \<Rightarrow> image_upload" where
  "handleFileSelect_await reply st =
     (let st1 = (case reply of
                   Resolved r \<Rightarrow>
                     if success r
                     then toast \<lparr>title = ''Upload successful'', description = message r,
                                 variant = None\<rparr>
                            (st\<lparr>currentImageId := Some (imageId r)\<rparr>)
                     else st
                 | Rejected detail \<Rightarrow>
                     (toast \<lparr>title = ''Upload failed'',
                             description = (case detail of
                                              None \<Rightarrow> ''Failed to upload image''
                                            | Some d \<Rightarrow>
                                                if d \<noteq> [] then d else ''Failed to upload image''),
                             variant = Some ''destructive''\<rparr> st)
                       \<lparr>originalImage := None, uploadedFile := None\<rparr>)
      in st1\<lparr>isUploading := False\<rparr>)"





section \<open>The server side, from the specification\<close>

text \<open>
  The views talk to a server (\<open>POST /images/upload\<close>, \<open>GET /images/history\<close>,
  \<open>GET /images/{id}/download\<close>) whose code is not among the sources: only these callers
  are. What that server does is taken from the specification, sections 3, 4.1, 4.3, 4.4
  and 6. Fields of a job that share a name with the browser's job record carry a prefix:
  \<open>jobId\<close>, \<open>jobStatus\<close> and \<open>jobEnhancementType\<close> are the specification's \<open>id\<close>,
  \<open>status\<close> and \<open>enhancementType\<close>.
\<close>

text \<open>Modelled from the spec: the four values of a job's \<open>status\<close> (section 3).\<close>

datatype Status = Uploaded | Processing | Completed | Failed

text \<open>Modelled from the spec: the error taxonomy of section 7.\<close>

datatype Error =
  InvalidFormat | FileTooLarge | NotFoundError | DuplicateIdError | InvalidStateError
  | ProcessingError | StorageFailure

text \<open>Modelled from the spec: the record \<open>ImageJob\<close> of section 3. Times are numbers.\<close>

record ImageJob =
  jobId :: string
  originalName :: string
  mimeType :: string
  fileSizeBytes :: nat
  jobStatus :: Status
  jobEnhancementType :: string
  uploadedAt :: nat
  enhancedAt :: "nat option"
  processingTimeSeconds :: "rat option"

text \<open>
  Modelled from the spec: \<open>Insert\<close> of the Job Record Store (section 4.3), which fails
  with \<open>DuplicateIdError\<close> if the id exists. The store is the list of its records.
\<close>

definition Insert :: "ImageJob \<Rightarrow> ImageJob list \<Rightarrow> Error + ImageJob list" where
  "Insert job table =
     (if jobId job \<in> set (map jobId table) then Inl DuplicateIdError else Inr (table @ [job]))"

text \<open>
  Modelled from the spec: \<open>Update\<close> of the Job Record Store (section 4.3), which fails
  with \<open>NotFoundError\<close> if the id is absent and replaces the full record otherwise.
\<close>

definition Update :: "ImageJob \<Rightarrow> ImageJob list \<Rightarrow> Error + ImageJob list" where
  "Update job table =
     (if jobId job \<in> set (map jobId table)
      then Inr (map (\<lambda>j. if jobId j = jobId job then job else j) table)
      else Inl NotFoundError)"

text \<open>Modelled from the spec: \<open>Get\<close> of the Job Record Store (section 4.3).\<close>

definition Get :: "string \<Rightarrow> ImageJob list \<Rightarrow> ImageJob option" where
  "Get i table = find (\<lambda>j. jobId j = i) table"

text \<open>
  Modelled from the spec: \<open>ListAll\<close> of the Job Record Store (section 4.3), "ordered by
  \<open>uploadedAt\<close> descending".
\<close>

definition ListAll :: "ImageJob list \<Rightarrow> ImageJob list" where
  "ListAll table = rev (sort_key uploadedAt table)"

text \<open>Modelled from the spec: the two namespaces of the Asset Store (section 4.4).\<close>

datatype Namespace = OriginalAsset | EnhancedAsset

text \<open>
  Modelled from the spec: \<open>Put\<close> of the Asset Store (section 4.4); a put on an existing
  key replaces it.
\<close>

definition Put ::
  "Namespace \<Rightarrow> string \<Rightarrow> 8 word list \<Rightarrow> (Namespace \<times> string \<rightharpoonup> 8 word list)
     \<Rightarrow> (Namespace \<times> string \<rightharpoonup> 8 word list)" where
  "Put namespace i bytes store = store((namespace, i) \<mapsto> bytes)"

text \<open>
  Modelled from the spec: the state the Lifecycle Service owns (section 2), the table of
  job records and the asset store.
\<close>

record service =
  jobs :: "ImageJob list"
  assets :: "Namespace \<times> string \<rightharpoonup> 8 word list"

text \<open>Modelled from the spec: the service before any upload.\<close>

definition empty_service :: service where
  "empty_service = \<lparr>jobs = [], assets = Map.empty\<rparr>"

text \<open>
  Modelled from the spec: \<open>Upload\<close> (section 4.1). \<open>newId\<close> is the id assigned to the
  new job and \<open>now\<close> the time of the upload. The mime type and the size are checked, the
  asset is written, and a job with status \<open>Uploaded\<close> and the fixed enhancement type
  (section 3) is inserted; when the insertion fails nothing is kept and the failure is
  \<open>StorageFailure\<close>. The check of the byte buffer against the declared size, for which
  the specification names no error, is left out: the model accepts every upload the
  service accepts.
\<close>

definition Upload ::
  "string \<Rightarrow> nat \<Rightarrow> 8 word list \<Rightarrow> string \<Rightarrow> nat \<Rightarrow> string \<Rightarrow> service
     \<Rightarrow> Error + ImageJob \<times> service" where
  "Upload newId now fileBytes declaredMimeType declaredSize filename s =
     (if declaredMimeType \<notin> set [''image/jpeg'', ''image/jpg'', ''image/png'']
      then Inl InvalidFormat
      else if declaredSize > 10 * 1024 * 1024 then Inl FileTooLarge
      else
        let job = \<lparr>jobId = newId, originalName = filename, mimeType = declaredMimeType,
                   fileSizeBytes = declaredSize, jobStatus = Uploaded,
                   jobEnhancementType = ''Grayscale + Sharpening'', uploadedAt = now,
                   enhancedAt = None, processingTimeSeconds = None\<rparr>
        in case Insert job (jobs s) of
             Inl _ \<Rightarrow> Inl StorageFailure
           | Inr table \<Rightarrow>
               Inr (job, \<lparr>jobs = table,
                          assets = Put OriginalAsset newId fileBytes (assets s)\<rparr>))"

text \<open>
  Modelled from the spec: the first half of \<open>Enhance\<close> (section 4.1): the job must exist
  and must not be in processing already; its status becomes \<open>Processing\<close>.
\<close>

definition Enhance_start :: "string \<Rightarrow> service \<Rightarrow> Error + service" where
  "Enhance_start i s =
     (case Get i (jobs s) of
        None \<Rightarrow> Inl NotFoundError
      | Some job \<Rightarrow>
          if jobStatus job = Processing then Inl InvalidStateError
          else (case Update (job\<lparr>jobStatus := Processing\<rparr>) (jobs s) of
                  Inl e \<Rightarrow> Inl e
                | Inr table \<Rightarrow> Inr (s\<lparr>jobs := table\<rparr>)))"

text \<open>
  Modelled from the spec: what the Enhancement Engine returns (section 4.2), the output
  image with the duration, or a failure to decode with the duration measured so far.
\<close>

datatype Transformed = Output "8 word list" rat | Undecodable rat

text \<open>
  Modelled from the spec: the second half of \<open>Enhance\<close> (section 4.1), once the engine
  has returned at time \<open>now\<close>: on success the enhanced asset is written and the job is
  \<open>Completed\<close>, on failure the job is \<open>Failed\<close> and \<open>ProcessingError\<close> is surfaced; both
  record the duration and \<open>enhancedAt\<close>. It does not ask that the job be in processing,
  which only adds runs.
\<close>

definition Enhance_finish ::
  "string \<Rightarrow> Transformed \<Rightarrow> nat \<Rightarrow> service \<Rightarrow> (Error + ImageJob) \<times> service" where
  "Enhance_finish i result now s =
     (case Get i (jobs s) of
        None \<Rightarrow> (Inl NotFoundError, s)
      | Some job \<Rightarrow>
          (case result of
             Output bytes seconds \<Rightarrow>
               let done = job\<lparr>jobStatus := Completed, enhancedAt := Some now,
                               processingTimeSeconds := Some seconds\<rparr>
               in (case Update done (jobs s) of
                     Inl e \<Rightarrow> (Inl e, s)
                   | Inr table \<Rightarrow>
                       (Inr done,
                        \<lparr>jobs = table, assets = Put EnhancedAsset i bytes (assets s)\<rparr>))
           | Undecodable seconds \<Rightarrow>
               let failed = job\<lparr>jobStatus := Failed, enhancedAt := Some now,
                                 processingTimeSeconds := Some seconds\<rparr>
               in (case Update failed (jobs s) of
                     Inl e \<Rightarrow> (Inl e, s)
                   | Inr table \<Rightarrow> (Inl ProcessingError, s\<lparr>jobs := table\<rparr>))))"

text \<open>Modelled from the spec: \<open>GetHistory\<close> (section 4.1), all known jobs as \<open>ListAll\<close> gives them.\<close>

definition GetHistory :: "service \<Rightarrow> ImageJob list" where
  "GetHistory s = ListAll (jobs s)"

text \<open>
  Modelled from the spec: the operations that change the service's state, and a run of
  them from a given state. An operation that fails leaves the state as its definition
  above says.
\<close>

datatype Operation =
    DoUpload string nat "8 word list" string nat string
  | DoEnhanceStart string
  | DoEnhanceFinish string Transformed nat

fun perform :: "Operation \<Rightarrow> service \<Rightarrow> service" where
  "perform (DoUpload newId now fileBytes declaredMimeType declaredSize filename) s =
     (case Upload newId now fileBytes declaredMimeType declaredSize filename s of
        Inl _ \<Rightarrow> s
      | Inr (_, s') \<Rightarrow> s')"
| "perform (DoEnhanceStart i) s = (case Enhance_start i s of Inl _ \<Rightarrow> s | Inr s' \<Rightarrow> s')"
| "perform (DoEnhanceFinish i result now) s = snd (Enhance_finish i result now s)"

definition run :: "Operation list \<Rightarrow> service \<Rightarrow> service" where
  "run ops s = foldl (\<lambda>s' op. perform op s') s ops"

text \<open>
  Modelled from the spec: the \<open><name>\<close> in the download name of section 6, the original
  name without its extension, the download name being "independent of the original's
  extension" (section 4.1). The server's \<open>Download\<close> is not among the sources.
\<close>

definition stem :: "string \<Rightarrow> string" where
  "stem name =
     (if CHR ''.'' \<in> set name then rev (tl (dropWhile (\<lambda>c. c \<noteq> CHR ''.'') (rev name)))
      else name)"

text \<open>
  Modelled from the spec: the name the server's \<open>Download\<close> gives the file (sections 4.1
  and 6), the original name with an \<open>enhanced_\<close> prefix and the fixed extension \<open>.png\<close>.
\<close>

definition spec_download_name :: "string \<Rightarrow> string" where
  "spec_download_name original = ''enhanced_'' @ stem original @ ''.png''"



section \<open>Rounding: to the nearest integer, and to binary64\<close>

lemma rhe_err: "\<bar>of_int (round_half_even y) - y\<bar> \<le> 1 / 2"
  unfolding round_half_even_def Let_def by (auto simp: abs_if) linarith+

lemma rhe_nonneg: "0 \<le> y \<Longrightarrow> 0 \<le> round_half_even y"
  unfolding round_half_even_def Let_def by (auto simp: abs_if) 

lemma rhe_le: "y \<le> of_int n \<Longrightarrow> round_half_even y \<le> n"
proof -
  assume a: "y \<le> of_int n"
  then have f: "\<lfloor>y\<rfloor> \<le> n" by (simp add: floor_le_iff) 
  show ?thesis
  proof (cases "\<lfloor>y\<rfloor> = n")
    case True
    then have "y - of_int \<lfloor>y\<rfloor> \<le> 0" using a by simp
    then show ?thesis unfolding round_half_even_def Let_def using True by auto
  next
    case False
    then have "\<lfloor>y\<rfloor> + 1 \<le> n" using f by simp
    then show ?thesis unfolding round_half_even_def Let_def using f by auto
  qed
qed

lemma two_powi_diff: "(2::rat) powi (m - n) = 2 powi m / 2 powi n"
  by (rule power_int_diff) simp

lemma ilog2_lower:
  assumes "x \<noteq> 0"
  shows "2 powi (ilog2 x) \<le> \<bar>x\<bar>"
proof -
  obtain p q where pq: "quotient_of \<bar>x\<bar> = (p, q)" by (cases "quotient_of \<bar>x\<bar>")
  have q: "0 < q" using pq by (rule quotient_of_denom_pos)
  have x: "\<bar>x\<bar> = of_int p / of_int q" using pq by (rule quotient_of_div)
  have "0 < \<bar>x\<bar>" using assms by simp
  then have p: "0 < p" using x q by (simp add: zero_less_divide_iff)
  define d where "d = bitlen p - bitlen q"
  have bp: "2 ^ nat (bitlen p - 1) \<le> p" using bitlen_bounds [OF p] by simp
  have bq: "q < 2 ^ nat (bitlen q)" using bitlen_bounds [OF q] by simp
  have bp1: "1 \<le> bitlen p" using p by (smt (verit) bitlen_eq_zero_iff bitlen_nonneg)
  have "d - 1 = (bitlen p - 1) - bitlen q" by (simp add: d_def)
  then have "(2::rat) powi (d - 1) = 2 powi (bitlen p - 1) / 2 powi (bitlen q)"
    by (simp only: two_powi_diff)
  also have "\<dots> = 2 ^ nat (bitlen p - 1) / 2 ^ nat (bitlen q)"
    using bp1 bitlen_nonneg [of q] by (simp add: power_int_def)
  also have "\<dots> \<le> of_int p / of_int q"
  proof (rule frac_le)
    show "(2::rat) ^ nat (bitlen p - 1) \<le> of_int p" using bp
      by (metis of_int_le_iff of_int_numeral of_int_power)
    show "rat_of_int q \<le> 2 ^ nat (bitlen q)" using bq
      by (metis less_imp_le of_int_le_iff of_int_numeral of_int_power)
  qed (use p q in auto)
  finally have low: "2 powi (d - 1) \<le> \<bar>x\<bar>" using x by simp
  show ?thesis
    unfolding ilog2_def pq Let_def using low by (simp add: d_def)
qed

lemma ilog2_upper:
  assumes "x \<noteq> 0"
  shows "\<bar>x\<bar> < 2 powi (ilog2 x + 1)"
proof -
  obtain p q where pq: "quotient_of \<bar>x\<bar> = (p, q)" by (cases "quotient_of \<bar>x\<bar>")
  have q: "0 < q" using pq by (rule quotient_of_denom_pos)
  have x: "\<bar>x\<bar> = of_int p / of_int q" using pq by (rule quotient_of_div)
  have "0 < \<bar>x\<bar>" using assms by simp
  then have p: "0 < p" using x q by (simp add: zero_less_divide_iff)
  define d where "d = bitlen p - bitlen q"
  have bp: "p < 2 ^ nat (bitlen p)" using bitlen_bounds [OF p] by simp
  have bq: "2 ^ nat (bitlen q - 1) \<le> q" using bitlen_bounds [OF q] by simp
  have bq1: "1 \<le> bitlen q" using q by (smt (verit) bitlen_eq_zero_iff bitlen_nonneg)
  have "of_int p / of_int q < (2::rat) ^ nat (bitlen p) / 2 ^ nat (bitlen q - 1)"
  proof (rule frac_less)
    show "of_int p < (2::rat) ^ nat (bitlen p)" using bp
      by (metis of_int_less_iff of_int_numeral of_int_power)
    show "(2::rat) ^ nat (bitlen q - 1) \<le> of_int q" using bq
      by (metis of_int_le_iff of_int_numeral of_int_power)
  qed (use p in auto)
  also have "\<dots> = 2 powi (bitlen p) / 2 powi (bitlen q - 1)"
    using bq1 bitlen_nonneg [of p] by (simp add: power_int_def)
  also have "\<dots> = 2 powi (bitlen p - (bitlen q - 1))"
    by (simp only: two_powi_diff)
  also have "\<dots> = 2 powi (d + 1)"
    by (simp add: d_def algebra_simps)
  finally have up: "\<bar>x\<bar> < 2 powi (d + 1)" using x by simp
  show ?thesis
    unfolding ilog2_def pq Let_def using up by (auto simp: d_def)
qed

lemma fl64_rel_err: "\<bar>fl64 x - x\<bar> \<le> \<bar>x\<bar> / 2 ^ 53"
proof (cases "x = 0")
  case True
  then show ?thesis by (simp add: fl64_def)
next
  case False
  define ulp :: rat where "ulp = 2 powi (ilog2 x - 52)"
  have ulp_pos: "0 < ulp" by (simp add: ulp_def)
  have ulp_eq: "ulp = 2 powi (ilog2 x) / 2 ^ 52"
    unfolding ulp_def by (simp only: two_powi_diff) simp
  have "fl64 x - x = (of_int (round_half_even (x / ulp)) - x / ulp) * ulp"
    using False ulp_pos by (simp add: fl64_def ulp_def Let_def algebra_simps)
  then have "\<bar>fl64 x - x\<bar> = \<bar>of_int (round_half_even (x / ulp)) - x / ulp\<bar> * ulp"
    using ulp_pos by (simp add: abs_mult)
  also have "\<dots> \<le> 1 / 2 * ulp"
    using rhe_err [of "x / ulp"] ulp_pos by (intro mult_right_mono) auto
  also have "\<dots> = 2 powi (ilog2 x) / 2 ^ 53"
    by (simp add: ulp_eq)
  also have "\<dots> \<le> \<bar>x\<bar> / 2 ^ 53"
    using ilog2_lower [OF False] by (simp add: divide_right_mono)
  finally show ?thesis .
qed

lemma fl64_nonneg: "0 \<le> x \<Longrightarrow> 0 \<le> fl64 x"
  by (auto simp: fl64_def Let_def intro!: mult_nonneg_nonneg rhe_nonneg divide_nonneg_nonneg)

lemma fl64_abs_err:
  assumes "\<bar>x\<bar> \<le> 512"
  shows "\<bar>fl64 x - x\<bar> \<le> 1 / 2 ^ 44"
proof -
  have "\<bar>x\<bar> / 2 ^ 53 \<le> 512 / 2 ^ 53" using assms by (simp add: divide_right_mono)
  also have "\<dots> = 1 / (2::rat) ^ 44" by simp
  finally show ?thesis using fl64_rel_err [of x] by linarith
qed

lemma mult_err:
  fixes x y x' y' :: rat
  assumes "\<bar>x - x'\<bar> \<le> dx" "\<bar>y - y'\<bar> \<le> dy" "\<bar>x'\<bar> \<le> X" "\<bar>y\<bar> \<le> Y"
  shows "\<bar>x * y - x' * y'\<bar> \<le> dx * Y + X * dy"
proof -
  have "x * y - x' * y' = (x - x') * y + x' * (y - y')" by (simp add: algebra_simps)
  then have "\<bar>x * y - x' * y'\<bar> \<le> \<bar>x - x'\<bar> * \<bar>y\<bar> + \<bar>x'\<bar> * \<bar>y - y'\<bar>"
    by (metis abs_mult abs_triangle_ineq)
  also have "\<dots> \<le> dx * Y + X * dy"
    using assms by (intro add_mono mult_mono) (auto intro: order_trans [OF abs_ge_zero])
  finally show ?thesis .
qed

lemma channel_bounds: "0 \<le> channel w" "channel w \<le> 255"
proof -
  show "0 \<le> channel w" by (simp only: channel_def of_nat_0_le_iff)
  have "unat w < 2 ^ 8" using unsigned_less [of w, where ?'a = nat] by simp
  then have "unat w \<le> 255" by simp
  then have "(of_nat (unat w) :: rat) \<le> of_nat 255" by (simp only: of_nat_le_iff)
  then show "channel w \<le> 255" by (simp only: channel_def of_nat_numeral)
qed

lemma term_err:
  fixes R a :: rat
  assumes R: "0 \<le> R" "R \<le> 255" and a: "0 \<le> a" "a \<le> 1"
  shows "\<bar>fl64 (R * fl64 a) - R * a\<bar> \<le> 256 / 2 ^ 44" and "0 \<le> fl64 (R * fl64 a)"
proof -
  define \<eta> :: rat where "\<eta> = 1 / 2 ^ 44"
  have \<eta>: "0 < \<eta>" "\<eta> \<le> 1 / 1000" by (simp_all add: \<eta>_def)
  have ca: "\<bar>fl64 a - a\<bar> \<le> \<eta>" unfolding \<eta>_def using a by (intro fl64_abs_err) simp
  have "R * fl64 a - R * a = R * (fl64 a - a)" by (simp add: algebra_simps)
  then have "\<bar>R * fl64 a - R * a\<bar> = R * \<bar>fl64 a - a\<bar>" using R by (simp add: abs_mult)
  also have "\<dots> \<le> 255 * \<eta>" using R ca by (intro mult_mono) auto
  finally have e1: "\<bar>R * fl64 a - R * a\<bar> \<le> 255 * \<eta>" .
  have "R * a \<le> 255 * 1" using R a by (intro mult_mono) auto
  moreover have "0 \<le> R * a" using R a by simp
  ultimately have "\<bar>R * fl64 a\<bar> \<le> 512" using e1 \<eta> by linarith
  then have "\<bar>fl64 (R * fl64 a) - R * fl64 a\<bar> \<le> \<eta>" unfolding \<eta>_def by (rule fl64_abs_err)
  then have "\<bar>fl64 (R * fl64 a) - R * a\<bar> \<le> 256 * \<eta>" using e1 by linarith
  then show "\<bar>fl64 (R * fl64 a) - R * a\<bar> \<le> 256 / 2 ^ 44" by (simp add: \<eta>_def)
  have "0 \<le> fl64 a" using a by (intro fl64_nonneg)
  then have "0 \<le> R * fl64 a" using R by simp
  then show "0 \<le> fl64 (R * fl64 a)" by (rule fl64_nonneg)
qed

lemma enhanced_value_err:
  fixes R G B :: rat
  assumes R: "0 \<le> R" "R \<le> 255" and G: "0 \<le> G" "G \<le> 255" and B: "0 \<le> B" "B \<le> 255"
  defines "g \<equiv> fl64 (fl64 (fl64 (R * fl64 (299 / 1000)) + fl64 (G * fl64 (587 / 1000)))
                      + fl64 (B * fl64 (114 / 1000)))"
  defines "x \<equiv> min 255 (fl64 (g * fl64 (12 / 10)))"
  shows "\<bar>x - spec_enhanced R G B\<bar> \<le> 1796 / 2 ^ 44" and "0 \<le> x" and "x \<le> 255"
proof -
  define \<eta> :: rat where "\<eta> = 1 / 2 ^ 44"
  have \<eta>: "0 < \<eta>" "\<eta> \<le> 1 / 1000" by (simp_all add: \<eta>_def)
  define t1 where "t1 = fl64 (R * fl64 (299 / 1000))"
  define t2 where "t2 = fl64 (G * fl64 (587 / 1000))"
  define t3 where "t3 = fl64 (B * fl64 (114 / 1000))"
  define s1 where "s1 = fl64 (t1 + t2)"
  define L where "L = spec_luma R G B"
  have L: "L = 299 / 1000 * R + 587 / 1000 * G + 114 / 1000 * B" by (simp add: L_def spec_luma_def)
  have g: "g = fl64 (s1 + t3)" by (simp add: g_def s1_def t1_def t2_def t3_def)
  have t1: "\<bar>t1 - R * (299 / 1000)\<bar> \<le> 256 * \<eta>" "0 \<le> t1"
    using term_err [OF R, of "299 / 1000"] by (simp_all add: t1_def \<eta>_def)
  have t2: "\<bar>t2 - G * (587 / 1000)\<bar> \<le> 256 * \<eta>" "0 \<le> t2"
    using term_err [OF G, of "587 / 1000"] by (simp_all add: t2_def \<eta>_def)
  have t3: "\<bar>t3 - B * (114 / 1000)\<bar> \<le> 256 * \<eta>" "0 \<le> t3"
    using term_err [OF B, of "114 / 1000"] by (simp_all add: t3_def \<eta>_def)
  have "\<bar>t1 + t2\<bar> \<le> 512" using t1 t2 R G \<eta> by linarith
  then have "\<bar>s1 - (t1 + t2)\<bar> \<le> \<eta>" unfolding s1_def \<eta>_def by (rule fl64_abs_err)
  moreover have s1_nonneg: "0 \<le> s1" unfolding s1_def using t1 t2 by (intro fl64_nonneg) simp
  ultimately have s1: "\<bar>s1 - (R * (299 / 1000) + G * (587 / 1000))\<bar> \<le> 513 * \<eta>"
    using t1 t2 by linarith
  have "\<bar>s1 + t3\<bar> \<le> 512" using s1 t3 R G B \<eta> by linarith
  then have "\<bar>g - (s1 + t3)\<bar> \<le> \<eta>" unfolding g \<eta>_def by (rule fl64_abs_err)
  then have gL: "\<bar>g - L\<bar> \<le> 770 * \<eta>" using s1 t3 unfolding L by linarith
  have g_nonneg: "0 \<le> g" unfolding g using s1_nonneg t3 by (intro fl64_nonneg) simp
  have L_bounds: "0 \<le> L" "L \<le> 255" using R G B unfolding L by linarith+
  define c where "c = fl64 (12 / 10)"
  have c: "\<bar>c - 12 / 10\<bar> \<le> \<eta>" "0 \<le> c"
    unfolding c_def \<eta>_def by (intro fl64_abs_err fl64_nonneg; simp)+
  have "\<bar>g * c - L * (12 / 10)\<bar> \<le> 770 * \<eta> * 2 + 255 * \<eta>"
    using gL c L_bounds \<eta> by (intro mult_err) auto
  then have p: "\<bar>g * c - L * (12 / 10)\<bar> \<le> 1795 * \<eta>" by simp
  then have "\<bar>g * c\<bar> \<le> 512" using L_bounds \<eta> by linarith
  then have "\<bar>fl64 (g * c) - g * c\<bar> \<le> \<eta>" unfolding \<eta>_def by (rule fl64_abs_err)
  then have E: "\<bar>fl64 (g * c) - L * (12 / 10)\<bar> \<le> 1796 * \<eta>" using p by linarith
  have "0 \<le> g * c" using g_nonneg c by simp
  then have E_nonneg: "0 \<le> fl64 (g * c)" by (rule fl64_nonneg)
  have x: "x = min 255 (fl64 (g * c))" by (simp add: x_def c_def)
  have "\<bar>x - min 255 (L * (12 / 10))\<bar> \<le> 1796 * \<eta>" unfolding x using E by (auto simp: min_def abs_if split: if_splits)
  then show "\<bar>x - spec_enhanced R G B\<bar> \<le> 1796 / 2 ^ 44"
    by (simp add: spec_enhanced_def L_def \<eta>_def)
  show "0 \<le> x" unfolding x using E_nonneg by simp
  show "x \<le> 255" unfolding x by simp
qed

lemma pixel_loop_length: "length (pixel_loop i px) = length px"
  by (induction i px rule: pixel_loop.induct) (subst pixel_loop.simps, simp add: Let_def)

lemma pixel_loop_below: "j < i \<Longrightarrow> pixel_loop i px ! j = px ! j"
proof (induction i px rule: pixel_loop.induct)
  case (1 i px)
  show ?case
  proof (cases "i < length px")
    case True
    then show ?thesis
      using "1.IH" [OF True refl] "1.prems" by (subst pixel_loop.simps) (simp add: Let_def)
  next
    case False
    then show ?thesis by (subst pixel_loop.simps) simp
  qed
qed

lemma enhanced_update_above:
  "i + 2 < j \<Longrightarrow> enhanced (px[i := u, i + 1 := v, i + 2 := w]) j = enhanced px j"
  by (simp add: enhanced_def gray_def get_def)

lemma pixel_loop_at:
  "j = i + 4 * n \<Longrightarrow> j + 3 < length px \<Longrightarrow>
     pixel_loop i px ! j = ToUint8Clamp (enhanced px j) \<and>
     pixel_loop i px ! (j + 1) = ToUint8Clamp (enhanced px j) \<and>
     pixel_loop i px ! (j + 2) = ToUint8Clamp (enhanced px j) \<and>
     pixel_loop i px ! (j + 3) = px ! (j + 3)"
proof (induction n arbitrary: i px)
  case 0
  then have "i < length px" by simp
  then show ?case using 0
    by (subst (1 2 3 4) pixel_loop.simps) (simp add: Let_def pixel_loop_below)
next
  case (Suc n)
  define e where "e = ToUint8Clamp (enhanced px i)"
  define px' where "px' = px[i := e, i + 1 := e, i + 2 := e]"
  have i: "i < length px" using Suc.prems by simp
  have step: "pixel_loop i px = pixel_loop (i + 4) px'"
    using i by (subst pixel_loop.simps) (simp add: Let_def e_def px'_def)
  have j: "j = i + 4 + 4 * n" using Suc.prems(1) by simp
  have len: "j + 3 < length px'" using Suc.prems(2) by (simp add: px'_def)
  have above: "i + 2 < j" using j by simp
  have enh: "enhanced px' j = enhanced px j"
    unfolding px'_def using above by (rule enhanced_update_above)
  have alpha: "px' ! (j + 3) = px ! (j + 3)"
    using above by (simp add: px'_def)
  from Suc.IH [OF j len] show ?case
    unfolding step enh alpha .
qed

lemma nearest_byte:
  fixes x E :: rat
  assumes "\<bar>of_int n - x\<bar> \<le> 1 / 2" and "\<bar>x - E\<bar> \<le> 1796 / 2 ^ 44" and "of_int M = 2500 * E"
  shows "\<bar>of_int n - E\<bar> \<le> 1 / 2"
proof -
  have scale: "\<bar>2500 * y\<bar> = 2500 * \<bar>y\<bar>" for y :: rat by (simp add: abs_mult)
  have "(of_int (2500 * n - M) :: rat) = 2500 * (of_int n - E)"
    using assms(3) by simp
  moreover have "\<bar>of_int n - E\<bar> \<le> 1 / 2 + 1796 / 2 ^ 44" using assms(1,2) by linarith
  moreover note scale [of "of_int n - E"]
  ultimately have "\<bar>of_int (2500 * n - M) :: rat\<bar> < of_int 1251" by simp
  then have "\<bar>2500 * n - M\<bar> < 1251" by (simp only: of_int_abs [symmetric] of_int_less_iff)
  then have "\<bar>2500 * n - M\<bar> \<le> 1250" by simp
  then have "(of_int \<bar>2500 * n - M\<bar> :: rat) \<le> of_int 1250" by (simp only: of_int_le_iff)
  then have "\<bar>2500 * (of_int n - E)\<bar> \<le> 1250" using assms(3) by simp
  moreover note scale [of "of_int n - E"]
  ultimately show ?thesis by simp
qed

lemma enhanced_full:
  assumes "j + 2 < length px"
  shows "\<exists>x. enhanced px j = Num x \<and> 0 \<le> x \<and> x \<le> 255 \<and>
           \<bar>x - spec_enhanced (channel (px ! j)) (channel (px ! (j + 1)))
                 (channel (px ! (j + 2)))\<bar> \<le> 1796 / 2 ^ 44"
proof -
  note b = channel_bounds
  from enhanced_value_err [OF b [of "px ! j"] b [of "px ! (j + 1)"] b [of "px ! (j + 2)"]]
  show ?thesis
    using assms by (simp add: enhanced_def gray_def get_def literal_def channel_def)
qed

lemma ToUint8Clamp_near:
  assumes "0 \<le> x" "x \<le> 255"
  shows "\<bar>channel (ToUint8Clamp (Num x)) - x\<bar> \<le> 1 / 2"
    and "\<exists>n. channel (ToUint8Clamp (Num x)) = of_int n"
proof -
  define n where "n = round_half_even x"
  have n0: "0 \<le> n" unfolding n_def using assms(1) by (rule rhe_nonneg)
  have n1: "n \<le> 255" unfolding n_def using assms(2) by (intro rhe_le) simp
  have "ToUint8Clamp (Num x) = word_of_int n" using assms by (simp add: n_def min_def max_def)
  moreover have "unat (word_of_int n :: 8 word) = nat n"
    using n0 n1 by (simp add: unsigned_of_int take_bit_int_eq_self)
  ultimately have c: "channel (ToUint8Clamp (Num x)) = of_int n"
    using n0 by (simp only: channel_def of_nat_nat)
  show "\<bar>channel (ToUint8Clamp (Num x)) - x\<bar> \<le> 1 / 2"
    unfolding c n_def by (rule rhe_err)
  show "\<exists>n. channel (ToUint8Clamp (Num x)) = of_int n" using c by blast
qed

lemma spec_enhanced_integral_nat:
  fixes a b c :: nat
  shows "\<exists>M. of_int M = 2500 * spec_enhanced (of_nat a) (of_nat b) (of_nat c)"
proof -
  define S where "S = 299 * int a + 587 * int b + 114 * int c"
  define A :: rat where "A = of_int S"
  have A: "A = 299 * of_nat a + 587 * of_nat b + 114 * of_nat c"
    by (simp add: A_def S_def)
  have "spec_luma (of_nat a) (of_nat b) (of_nat c) * (12 / 10) = 3 * A / 2500"
    unfolding spec_luma_def A by (simp add: field_simps)
  then have spec: "spec_enhanced (of_nat a) (of_nat b) (of_nat c) = min 255 (3 * A / 2500)"
    by (simp only: spec_enhanced_def)
  show ?thesis
  proof (cases "637500 \<le> 3 * A")
    case True
    then have "2500 * spec_enhanced (of_nat a) (of_nat b) (of_nat c) = of_int 637500"
      unfolding spec by (simp add: min_def)
    then show ?thesis by metis
  next
    case False
    then have "2500 * spec_enhanced (of_nat a) (of_nat b) (of_nat c) = of_int (3 * S)"
      unfolding spec by (simp add: min_def A_def)
    then show ?thesis by metis
  qed
qed

lemma spec_enhanced_integral:
  "\<exists>M. of_int M = 2500 * spec_enhanced (channel r) (channel g) (channel b)"
  unfolding channel_def by (rule spec_enhanced_integral_nat)

text \<open>The four literals of the pixel loop, as the binary64 values they denote.\<close>

lemma fl64_literals:
  "fl64 (299 / 1000) = 5386305154335113 / 2 ^ 54"
  "fl64 (587 / 1000) = 2643612981266481 / 2 ^ 52"
  "fl64 (114 / 1000) = 8214565720323785 / 2 ^ 56"
  "fl64 (12 / 10) = 5404319552844595 / 2 ^ 52"
  by code_simp+

section \<open>Evaluation helpers\<close>


lemma store_200_100_50: "ToUint8Clamp (enhanced [200, 100, 50, a] 0) = 149"
proof -
  have "ToUint8Clamp (Math_min (Num 255)
     (js_times (js_plus (js_plus (js_times (Num 200) (literal (299 / 1000)))
                                 (js_times (Num 100) (literal (587 / 1000))))
                        (js_times (Num 50) (literal (114 / 1000))))
               (literal (12 / 10)))) = 149"
    by code_simp
  then show ?thesis by (simp add: enhanced_def gray_def get_def)
qed

text \<open>
  At a tie the binary64 computation decides: for the pixel \<open>(0, 18, 6)\<close> the contract
  value is exactly \<open>13.5\<close>, the computed Number lies just below it, and the byte is 13.
\<close>

lemma tie_example:
  "pixel_loop 0 [0, 18, 6, 255] = [13, 13, 13, 255] \<and>
   spec_enhanced (channel 0) (channel 18) (channel 6) = 27 / 2"
proof -
  have "pixel_loop 0 [0, 18, 6, 255] = [13, 13, 13, 255]" by code_simp
  then show ?thesis by (simp add: channel_def spec_enhanced_def spec_luma_def)
qed

section \<open>The pixel contract\<close>

text \<open>
  Claim C1, as the code has it. For every pixel \<open>k\<close> of the canvas data, the pass leaves
  the length of the data and the alpha byte unchanged and stores one and the same byte in
  the red, green and blue positions; that byte is an integer nearest to
  \<open>E = min(255, (0.299 R + 0.587 G + 0.114 B) \<times> 1.2)\<close>: it differs from \<open>E\<close> by at most
  one half. (The stored value is a byte of a \<open>Uint8ClampedArray\<close>, so it is \<open>E\<close> itself
  only when \<open>E\<close> is an integer.)
\<close>

theorem simulateEnhancement_pixel_nearest:
  assumes "4 * k + 3 < length px"
  shows "length (pixel_loop 0 px) = length px \<and>
         pixel_loop 0 px ! (4 * k + 1) = pixel_loop 0 px ! (4 * k) \<and>
         pixel_loop 0 px ! (4 * k + 2) = pixel_loop 0 px ! (4 * k) \<and>
         \<bar>channel (pixel_loop 0 px ! (4 * k)) -
            spec_enhanced (channel (px ! (4 * k))) (channel (px ! (4 * k + 1)))
              (channel (px ! (4 * k + 2)))\<bar> \<le> 1 / 2 \<and>
         pixel_loop 0 px ! (4 * k + 3) = px ! (4 * k + 3)"
proof -
  define j where "j = 4 * k"
  define E where "E = spec_enhanced (channel (px ! j)) (channel (px ! (j + 1)))
              (channel (px ! (j + 2)))"
  have j: "j = 0 + 4 * k" "j + 3 < length px" using assms by (simp_all add: j_def)
  note at = pixel_loop_at [OF j]
  have "j + 2 < length px" using j by simp
  from enhanced_full [OF this] obtain x where
    x: "enhanced px j = Num x" "0 \<le> x" "x \<le> 255" "\<bar>x - E\<bar> \<le> 1796 / 2 ^ 44"
    unfolding E_def by blast
  from ToUint8Clamp_near [OF x(2,3)] obtain n where
    n: "channel (ToUint8Clamp (Num x)) = of_int n" "\<bar>of_int n - x\<bar> \<le> 1 / 2"
    by auto
  obtain M where M: "of_int M = 2500 * E"
    unfolding E_def using spec_enhanced_integral by blast
  have "\<bar>of_int n - E\<bar> \<le> 1 / 2" using n(2) x(4) M by (rule nearest_byte)
  then have "\<bar>channel (pixel_loop 0 px ! j) - E\<bar> \<le> 1 / 2"
    using at x(1) n(1) by simp
  then show ?thesis
    using at unfolding E_def j_def by (simp add: pixel_loop_length)
qed

text \<open>The theorem at the second pixel of a two-pixel image.\<close>

theorem simulateEnhancement_pixel_nearest_witness:
  "4 * 1 + 3 < length [9, 9, 9, 7, 0, 18, 6, 255 :: 8 word] \<and>
   length (pixel_loop 0 [9, 9, 9, 7, 0, 18, 6, 255]) = 8 \<and>
   pixel_loop 0 [9, 9, 9, 7, 0, 18, 6, 255] ! 5 = pixel_loop 0 [9, 9, 9, 7, 0, 18, 6, 255] ! 4 \<and>
   pixel_loop 0 [9, 9, 9, 7, 0, 18, 6, 255] ! 6 = pixel_loop 0 [9, 9, 9, 7, 0, 18, 6, 255] ! 4 \<and>
   \<bar>channel (pixel_loop 0 [9, 9, 9, 7, 0, 18, 6, 255] ! 4) -
      spec_enhanced (channel 0) (channel 18) (channel 6)\<bar> \<le> 1 / 2 \<and>
   pixel_loop 0 [9, 9, 9, 7, 0, 18, 6, 255] ! 7 = 255"
  using simulateEnhancement_pixel_nearest [of 1 "[9, 9, 9, 7, 0, 18, 6, 255]"] by simp

text \<open>
  Claim C1 as it is worded fails: for the pixel \<open>(200, 100, 50, 255)\<close> the contract value
  is \<open>E = 149.04\<close>, and the red byte of the output is not \<open>E\<close>.
\<close>

theorem simulateEnhancement_pixel_counterexample:
  "channel (pixel_loop 0 [200, 100, 50, 255] ! 0) \<noteq>
   spec_enhanced (channel 200) (channel 100) (channel 50)"
proof -
  have "pixel_loop 0 [200, 100, 50, 255] = pixel_loop 4 [149, 149, 149, 255]"
    by (subst pixel_loop.simps) (simp add: store_200_100_50)
  also have "\<dots> = [149, 149, 149, 255]"
    by (subst pixel_loop.simps) simp
  finally show ?thesis
    by (simp add: channel_def spec_enhanced_def spec_luma_def)
qed

text \<open>
  Claim C4. The 1\<times>1 image with RGB \<open>(200, 100, 50)\<close> and any alpha \<open>a\<close> becomes
  \<open>(149, 149, 149, a)\<close>.
\<close>

theorem simulateEnhancement_200_100_50:
  "pixel_loop 0 [200, 100, 50, a] = [149, 149, 149, a]"
proof -
  have "pixel_loop 0 [200, 100, 50, a] = pixel_loop 4 [149, 149, 149, a]"
    by (subst pixel_loop.simps) (simp add: store_200_100_50)
  also have "\<dots> = [149, 149, 149, a]"
    by (subst pixel_loop.simps) simp
  finally show ?thesis .
qed

text \<open>
  Claim C5. Whatever the format \<open>m\<close> of the original (JPEG or PNG), once it has decoded the
  enhanced image is a PNG data URL, holding the pixel pass of the original's raster.
\<close>

theorem simulateEnhancement_png:
  "originalImage st = Some (DataURL m (Some pixels)) \<Longrightarrow>
     enhancedImage (simulateEnhancement st) =
       Some (DataURL ''image/png'' (Some (pixel_loop 0 pixels))) \<and>
     isProcessing (simulateEnhancement st) = False"
  by (simp add: simulateEnhancement_def toast_def)

theorem simulateEnhancement_png_witness:
  "originalImage (ImageUpload_init\<lparr>originalImage := Some (DataURL ''image/jpeg'' (Some []))\<rparr>)
     = Some (DataURL ''image/jpeg'' (Some [])) \<and>
   enhancedImage
     (simulateEnhancement
        (ImageUpload_init\<lparr>originalImage := Some (DataURL ''image/jpeg'' (Some []))\<rparr>))
     = Some (DataURL ''image/png'' (Some (pixel_loop 0 [])))"
  using simulateEnhancement_png
    [of "ImageUpload_init\<lparr>originalImage := Some (DataURL ''image/jpeg'' (Some []))\<rparr>"
        "''image/jpeg''" "[]"]
  by simp

section \<open>Upload validation\<close>

text \<open>
  The three events of an upload in both orders: when the server refuses the file, the
  preview stays if the read completes after the refusal and is cleared if it completes
  before.
\<close>

lemma upload_refused_orders:
  assumes "file_type f \<in> set validTypes" and "file_size f \<le> 10 * 1024 * 1024"
  shows "originalImage (reader_onload f (handleFileSelect_await (Rejected detail)
           (handleFileSelect (Some f) st))) = Some (readAsDataURL f)"
    and "originalImage (handleFileSelect_await (Rejected detail) (reader_onload f
           (handleFileSelect (Some f) st))) = None"
    and "currentImageId (handleFileSelect_await (Resolved (UploadResponse True i m u))
           (reader_onload f (handleFileSelect (Some f) st))) = Some i"
    and "originalImage (handleFileSelect_await (Resolved (UploadResponse True i m u))
           (reader_onload f (handleFileSelect (Some f) st))) = Some (readAsDataURL f)"
  using assms
  by (simp_all add: handleFileSelect_def handleFileSelect_await_def reader_onload_def
      toast_def axios_def)

text \<open>
  Claim C2. A selected file whose type is outside the allow-list is refused with the
  "Invalid file type" toast and nothing else happens: no request is sent (so the server
  creates no job record and stores no asset) and the view's state is unchanged. Both
  versions of the handler behave so.
\<close>

theorem handleFileSelect_invalid_type:
  "file_type f \<notin> set validTypes \<Longrightarrow>
     handleFileSelect (Some f) st = st\<lparr>toasts := toasts st @ [invalid_type_toast]\<rparr> \<and>
     requests (handleFileSelect (Some f) st) = requests st \<and>
     uploadedFile (handleFileSelect (Some f) st) = uploadedFile st \<and>
     handleFileSelect_canvas (Some f) st = st\<lparr>toasts := toasts st @ [invalid_type_toast]\<rparr>"
  by (simp add: handleFileSelect_def handleFileSelect_canvas_def toast_def)

theorem handleFileSelect_invalid_type_witness:
  "file_type \<lparr>file_name = ''scan.gif'', file_type = ''image/gif'', file_size = 2048,
              file_raster = None\<rparr> \<notin> set validTypes \<and>
   handleFileSelect
     (Some \<lparr>file_name = ''scan.gif'', file_type = ''image/gif'', file_size = 2048,
            file_raster = None\<rparr>) ImageUpload_init
     = ImageUpload_init\<lparr>toasts := [invalid_type_toast]\<rparr> \<and>
   requests (handleFileSelect
     (Some \<lparr>file_name = ''scan.gif'', file_type = ''image/gif'', file_size = 2048,
            file_raster = None\<rparr>) ImageUpload_init) = []"
  using handleFileSelect_invalid_type
    [of "\<lparr>file_name = ''scan.gif'', file_type = ''image/gif'', file_size = 2048,
           file_raster = None\<rparr>" ImageUpload_init]
  by (simp add: validTypes_def ImageUpload_init_def)

text \<open>
  Claim C3, as the code has it. For a file of an accepted type: above 10 MiB it is refused
  with the "File too large" toast and nothing else happens (no request, state unchanged);
  at or below 10 MiB it passes validation, and then the current version posts it to
  \<open>/images/upload\<close> without any toast, while the first version keeps it, shows its
  preview and reports "Image uploaded successfully".
\<close>

theorem handleFileSelect_size_limit:
  "file_type f \<in> set validTypes \<Longrightarrow>
     (if file_size f > 10 * 1024 * 1024
      then handleFileSelect (Some f) st = st\<lparr>toasts := toasts st @ [too_large_toast]\<rparr> \<and>
           requests (handleFileSelect (Some f) st) = requests st \<and>
           handleFileSelect_canvas (Some f) st = st\<lparr>toasts := toasts st @ [too_large_toast]\<rparr>
      else requests (handleFileSelect (Some f) st) =
             requests st @ [POST ''/images/upload'' (Some f)] \<and>
           toasts (handleFileSelect (Some f) st) = toasts st \<and>
           uploadedFile (handleFileSelect (Some f) st) = Some f \<and>
           uploadedFile (handleFileSelect_canvas (Some f) st) = Some f \<and>
           originalImage (handleFileSelect_canvas (Some f) st) = Some (readAsDataURL f) \<and>
           map title (toasts (handleFileSelect_canvas (Some f) st)) =
             map title (toasts st) @ [''Image uploaded successfully''])"
  by (simp add: handleFileSelect_def handleFileSelect_canvas_def toast_def axios_def)

text \<open>The theorem one byte above the limit, and exactly at the limit.\<close>

theorem handleFileSelect_size_limit_witness:
  "file_type \<lparr>file_name = ''scan.png'', file_type = ''image/png'', file_size = 10485761,
              file_raster = None\<rparr> \<in> set validTypes \<and>
   handleFileSelect
     (Some \<lparr>file_name = ''scan.png'', file_type = ''image/png'', file_size = 10485761,
            file_raster = None\<rparr>) ImageUpload_init
     = ImageUpload_init\<lparr>toasts := [too_large_toast]\<rparr> \<and>
   file_type \<lparr>file_name = ''scan.png'', file_type = ''image/png'', file_size = 10485760,
              file_raster = None\<rparr> \<in> set validTypes \<and>
   requests (handleFileSelect
     (Some \<lparr>file_name = ''scan.png'', file_type = ''image/png'', file_size = 10485760,
            file_raster = None\<rparr>) ImageUpload_init)
     = [POST ''/images/upload''
          (Some \<lparr>file_name = ''scan.png'', file_type = ''image/png'', file_size = 10485760,
            file_raster = None\<rparr>)]"
  using handleFileSelect_size_limit
    [of "\<lparr>file_name = ''scan.png'', file_type = ''image/png'', file_size = 10485761,
           file_raster = None\<rparr>" ImageUpload_init]
    handleFileSelect_size_limit
    [of "\<lparr>file_name = ''scan.png'', file_type = ''image/png'', file_size = 10485760,
           file_raster = None\<rparr>" ImageUpload_init]
  by (simp add: validTypes_def ImageUpload_init_def)

text \<open>
  Claim C3 as it is worded fails: a file above 10 MiB whose type is also outside the
  allow-list is refused by the type check, which comes first, with "Invalid file type" and
  not with "File too large".
\<close>

theorem handleFileSelect_size_limit_counterexample:
  "10 * 1024 * 1024 < file_size \<lparr>file_name = ''scan.gif'', file_type = ''image/gif'',
        file_size = 10485761, file_raster = None\<rparr> \<and>
   map title (toasts (handleFileSelect
      (Some \<lparr>file_name = ''scan.gif'', file_type = ''image/gif'', file_size = 10485761,
             file_raster = None\<rparr>) ImageUpload_init)) = [''Invalid file type''] \<and>
   map title (toasts (handleFileSelect_canvas
      (Some \<lparr>file_name = ''scan.gif'', file_type = ''image/gif'', file_size = 10485761,
             file_raster = None\<rparr>) ImageUpload_init)) = [''Invalid file type''] \<and>
   ''Invalid file type'' \<noteq> title too_large_toast"
  by (simp add: handleFileSelect_def handleFileSelect_canvas_def toast_def validTypes_def
      ImageUpload_init_def invalid_type_toast_def too_large_toast_def)

section \<open>Downloads from the history view\<close>

text \<open>
  Claim C6. For a job whose status is not \<open>Completed\<close> the download button is disabled and
  \<open>handleDownload\<close> only shows "Download not available": no request is sent and no
  download is started. So a download is started only for a job whose status is
  \<open>Completed\<close>.
\<close>

theorem handleDownload_requires_completed:
  "(status item \<noteq> ''Completed'' \<longrightarrow>
      download_disabled item \<and>
      handleDownload reply item st =
        st\<lparr>toasts := toasts st @
             [\<lparr>title = ''Download not available'',
               description = ''Enhancement not completed yet'',
               variant = Some ''destructive''\<rparr>]\<rparr> \<and>
      requests (handleDownload reply item st) = requests st \<and>
      downloads (handleDownload reply item st) = downloads st) \<and>
   (downloads (handleDownload reply item st) \<noteq> downloads st \<longrightarrow>
      status item = ''Completed'')"
  by (cases "status item = ''Completed''")
     (simp_all add: handleDownload_def toast_def download_disabled_def)

text \<open>
  The theorem at a job still in processing, and at the first job of the mock history, which
  is completed and whose download is started.
\<close>

theorem handleDownload_requires_completed_witness:
  "status \<lparr>job_id = ''7'', originalImageName = ''knee.png'', enhancedImageName = None,
           uploadDate = ''2025-01-16T08:00:00Z'', enhancementType = ''Grayscale + Sharpening'',
           status = ''Processing'', processingTime = None\<rparr> \<noteq> ''Completed'' \<and>
   handleDownload (Resolved \<lparr>content_disposition = None, blob = [1, 2]\<rparr>)
     \<lparr>job_id = ''7'', originalImageName = ''knee.png'', enhancedImageName = None,
      uploadDate = ''2025-01-16T08:00:00Z'', enhancementType = ''Grayscale + Sharpening'',
      status = ''Processing'', processingTime = None\<rparr> EnhancementHistory_init
     = EnhancementHistory_init\<lparr>toasts :=
         [\<lparr>title = ''Download not available'',
           description = ''Enhancement not completed yet'',
           variant = Some ''destructive''\<rparr>]\<rparr> \<and>
   downloads (handleDownload (Resolved \<lparr>content_disposition = None, blob = [1, 2]\<rparr>)
     (hd mockEnhancementHistory) EnhancementHistory_init) \<noteq> downloads EnhancementHistory_init \<and>
   status (hd mockEnhancementHistory) = ''Completed''"
proof -
  have started:
    "downloads (handleDownload (Resolved \<lparr>content_disposition = None, blob = [1, 2]\<rparr>)
       (hd mockEnhancementHistory) EnhancementHistory_init) \<noteq> downloads EnhancementHistory_init"
    by (simp add: handleDownload_def toast_def axios_def click_download_def header_filename_def
        mockEnhancementHistory_def EnhancementHistory_init_def Let_def)
  show ?thesis
    using started
      handleDownload_requires_completed
        [of "\<lparr>job_id = ''7'', originalImageName = ''knee.png'', enhancedImageName = None,
              uploadDate = ''2025-01-16T08:00:00Z'',
              enhancementType = ''Grayscale + Sharpening'',
              status = ''Processing'', processingTime = None\<rparr>"
            "Resolved \<lparr>content_disposition = None, blob = [1, 2]\<rparr>" EnhancementHistory_init]
      handleDownload_requires_completed
        [of "hd mockEnhancementHistory"
            "Resolved \<lparr>content_disposition = None, blob = [1, 2]\<rparr>" EnhancementHistory_init]
    by (simp add: EnhancementHistory_init_def)
qed







section \<open>The server side: history order and enhancement type\<close>

lemma ListAll_sorted: "sorted_wrt (\<lambda>a b. uploadedAt b \<le> uploadedAt a) (ListAll table)"
proof -
  have "sorted (map uploadedAt (sort_key uploadedAt table))" by (rule sorted_sort_key)
  then have "sorted_wrt (\<lambda>a b. uploadedAt a \<le> uploadedAt b) (sort_key uploadedAt table)"
    by (simp only: sorted_wrt_map)
  then show ?thesis by (simp only: ListAll_def sorted_wrt_rev)
qed

lemma ListAll_mset: "mset (ListAll table) = mset table"
  by (simp add: ListAll_def)

lemma Upload_Inr:
  assumes "Upload newId now fileBytes declaredMimeType declaredSize filename s = Inr (job, s')"
  shows "jobs s' = jobs s @ [job]" and "uploadedAt job = now" and "jobStatus job = Uploaded"
    and "jobEnhancementType job = ''Grayscale + Sharpening''"
  using assms
  by (auto simp: Upload_def Insert_def Let_def split: if_splits)

lemma Get_in_table: "Get i table = Some job \<Longrightarrow> job \<in> set table"
  by (auto simp: Get_def find_Some_iff)

lemma Update_set: "Update job table = Inr table' \<Longrightarrow> set table' \<subseteq> insert job (set table)"
  by (auto simp: Update_def split: if_splits)

lemma perform_keeps_type:
  assumes "\<forall>j \<in> set (jobs s). jobEnhancementType j = ''Grayscale + Sharpening''"
  shows "\<forall>j \<in> set (jobs (perform op s)). jobEnhancementType j = ''Grayscale + Sharpening''"
proof (cases op)
  case (DoUpload newId now fileBytes declaredMimeType declaredSize filename)
  show ?thesis
  proof (cases "Upload newId now fileBytes declaredMimeType declaredSize filename s")
    case (Inl e)
    then show ?thesis using assms DoUpload by simp
  next
    case (Inr r)
    obtain job s' where r: "r = (job, s')" by (cases r)
    from Upload_Inr [OF Inr [unfolded r]] assms show ?thesis
      using DoUpload Inr r by auto
  qed
next
  case (DoEnhanceStart i)
  show ?thesis
  proof (cases "Enhance_start i s")
    case (Inl e)
    then show ?thesis using assms DoEnhanceStart by simp
  next
    case (Inr s')
    then obtain job table where
      g: "Get i (jobs s) = Some job" and
      u: "Update (job\<lparr>jobStatus := Processing\<rparr>) (jobs s) = Inr table" and
      s': "s' = s\<lparr>jobs := table\<rparr>"
      by (auto simp: Enhance_start_def split: option.splits if_splits sum.splits)
    have "jobEnhancementType job = ''Grayscale + Sharpening''"
      using Get_in_table [OF g] assms by blast
    then show ?thesis
      using Update_set [OF u] assms DoEnhanceStart Inr s' by auto
  qed
next
  case (DoEnhanceFinish i result now)
  show ?thesis
  proof (cases "Get i (jobs s)")
    case None
    then show ?thesis using assms DoEnhanceFinish by (simp add: Enhance_finish_def)
  next
    case (Some job)
    have t: "jobEnhancementType job = ''Grayscale + Sharpening''"
      using Get_in_table [OF Some] assms by blast
    show ?thesis
    proof (cases result)
      case (Output bytes seconds)
      show ?thesis
      proof (cases "Update (job\<lparr>jobStatus := Completed, enhancedAt := Some now,
                               processingTimeSeconds := Some seconds\<rparr>) (jobs s)")
        case (Inl e)
        then show ?thesis
          using assms DoEnhanceFinish Some Output by (simp add: Enhance_finish_def)
      next
        case (Inr table)
        from Update_set [OF Inr] t assms show ?thesis
          using DoEnhanceFinish Some Output Inr by (auto simp: Enhance_finish_def)
      qed
    next
      case (Undecodable seconds)
      show ?thesis
      proof (cases "Update (job\<lparr>jobStatus := Failed, enhancedAt := Some now,
                               processingTimeSeconds := Some seconds\<rparr>) (jobs s)")
        case (Inl e)
        then show ?thesis
          using assms DoEnhanceFinish Some Undecodable by (simp add: Enhance_finish_def)
      next
        case (Inr table)
        from Update_set [OF Inr] t assms show ?thesis
          using DoEnhanceFinish Some Undecodable Inr by (auto simp: Enhance_finish_def)
      qed
    qed
  qed
qed

lemma run_keeps_type:
  assumes "\<forall>j \<in> set (jobs s). jobEnhancementType j = ''Grayscale + Sharpening''"
  shows "\<forall>j \<in> set (jobs (run ops s)). jobEnhancementType j = ''Grayscale + Sharpening''"
  using assms
proof (induction ops arbitrary: s)
  case Nil
  then show ?case by (simp add: run_def)
next
  case (Cons op ops)
  from Cons.IH [OF perform_keeps_type [OF Cons.prems, of op]]
  show ?case by (simp add: run_def)
qed

text \<open>
  The repository's own data agrees with this: the mock history is newest first, all its
  records have the fixed enhancement type and name the enhanced file as the
  specification does, and the history view keeps the records in the order in which it
  receives them.
\<close>

lemma mock_history_newest_first:
  "map (\<lambda>j. utc_key (uploadDate j)) mockEnhancementHistory =
     [20250115103000, 20250114154500, 20250113091500]"
  "sorted_wrt uploaded_after mockEnhancementHistory"
  by (simp_all add: mockEnhancementHistory_def uploaded_after_def utc_key_def is_digit_def)

lemma mock_history_enhancementType:
  "list_all (\<lambda>j. enhancementType j = ''Grayscale + Sharpening'') mockEnhancementHistory"
  by (simp add: mockEnhancementHistory_def)

lemma mock_history_enhancedImageName:
  "list_all (\<lambda>j. enhancedImageName j = Some (spec_download_name (originalImageName j)))
     mockEnhancementHistory"
  by (simp add: mockEnhancementHistory_def spec_download_name_def stem_def)

lemma loadHistory_keeps_order:
  "history (loadHistory (Resolved (HistoryResponse True received)) st) = received"
  "history (loadHistory_mock st) = mockEnhancementHistory"
  by (simp_all add: loadHistory_def loadHistory_mock_def getEnhancementHistory_def axios_def)

text \<open>
  Claim C8, on the server as the specification describes it. \<open>GetHistory\<close> returns all
  known jobs, each as often as the store holds it, most recently uploaded first; and
  after three uploads into the empty service at times \<open>t1 < t2 < t3\<close>, which gave the jobs
  \<open>job1\<close>, \<open>job2\<close> and \<open>job3\<close>, it returns \<open>[job3, job2, job1]\<close>.
\<close>

theorem GetHistory_most_recent_first:
  "mset (GetHistory s) = mset (jobs s) \<and>
   sorted_wrt (\<lambda>a b. uploadedAt b \<le> uploadedAt a) (GetHistory s) \<and>
   (t1 < t2 \<and> t2 < t3 \<and>
    Upload i1 t1 b1 m1 z1 f1 empty_service = Inr (job1, s1) \<and>
    Upload i2 t2 b2 m2 z2 f2 s1 = Inr (job2, s2) \<and>
    Upload i3 t3 b3 m3 z3 f3 s2 = Inr (job3, s3)
    \<longrightarrow> GetHistory s3 = [job3, job2, job1])"
proof (intro conjI impI)
  show "mset (GetHistory s) = mset (jobs s)" by (simp add: GetHistory_def ListAll_mset)
  show "sorted_wrt (\<lambda>a b. uploadedAt b \<le> uploadedAt a) (GetHistory s)"
    unfolding GetHistory_def by (rule ListAll_sorted)
next
  assume a: "t1 < t2 \<and> t2 < t3 \<and>
    Upload i1 t1 b1 m1 z1 f1 empty_service = Inr (job1, s1) \<and>
    Upload i2 t2 b2 m2 z2 f2 s1 = Inr (job2, s2) \<and>
    Upload i3 t3 b3 m3 z3 f3 s2 = Inr (job3, s3)"
  then have u1: "Upload i1 t1 b1 m1 z1 f1 empty_service = Inr (job1, s1)"
    and u2: "Upload i2 t2 b2 m2 z2 f2 s1 = Inr (job2, s2)"
    and u3: "Upload i3 t3 b3 m3 z3 f3 s2 = Inr (job3, s3)" by simp_all
  have table: "jobs s3 = [job1, job2, job3]"
    using Upload_Inr(1) [OF u1] Upload_Inr(1) [OF u2] Upload_Inr(1) [OF u3]
    by (simp add: empty_service_def)
  have "sorted (map uploadedAt [job1, job2, job3])"
    using a Upload_Inr(2) [OF u1] Upload_Inr(2) [OF u2] Upload_Inr(2) [OF u3] by simp
  then have "sort_key uploadedAt [job1, job2, job3] = [job1, job2, job3]"
    by (rule sort_key_id_if_sorted)
  then show "GetHistory s3 = [job3, job2, job1]"
    by (simp add: GetHistory_def ListAll_def table)
qed

text \<open>The theorem at three uploads, at times 10, 20 and 30.\<close>

theorem GetHistory_most_recent_first_witness:
  "(10::nat) < 20 \<and> (20::nat) < 30 \<and>
   Upload ''a'' 10 [1] ''image/png'' 2048 ''knee.png'' empty_service =
     Inr (\<lparr>jobId = ''a'', originalName = ''knee.png'', mimeType = ''image/png'',
            fileSizeBytes = 2048, jobStatus = Uploaded,
            jobEnhancementType = ''Grayscale + Sharpening'', uploadedAt = 10,
            enhancedAt = None, processingTimeSeconds = None\<rparr>,
          run [DoUpload ''a'' 10 [1] ''image/png'' 2048 ''knee.png''] empty_service) \<and>
   GetHistory
     (run [DoUpload ''a'' 10 [1] ''image/png'' 2048 ''knee.png'',
           DoUpload ''b'' 20 [2] ''image/jpeg'' 2048 ''hip.jpg'',
           DoUpload ''c'' 30 [3] ''image/png'' 2048 ''arm.png''] empty_service) =
     [\<lparr>jobId = ''c'', originalName = ''arm.png'', mimeType = ''image/png'',
       fileSizeBytes = 2048, jobStatus = Uploaded,
       jobEnhancementType = ''Grayscale + Sharpening'', uploadedAt = 30,
       enhancedAt = None, processingTimeSeconds = None\<rparr>,
      \<lparr>jobId = ''b'', originalName = ''hip.jpg'', mimeType = ''image/jpeg'',
       fileSizeBytes = 2048, jobStatus = Uploaded,
       jobEnhancementType = ''Grayscale + Sharpening'', uploadedAt = 20,
       enhancedAt = None, processingTimeSeconds = None\<rparr>,
      \<lparr>jobId = ''a'', originalName = ''knee.png'', mimeType = ''image/png'',
       fileSizeBytes = 2048, jobStatus = Uploaded,
       jobEnhancementType = ''Grayscale + Sharpening'', uploadedAt = 10,
       enhancedAt = None, processingTimeSeconds = None\<rparr>]"
proof -
  define s1 where "s1 = run [DoUpload ''a'' 10 [1] ''image/png'' 2048 ''knee.png''] empty_service"
  define s2 where "s2 = run [DoUpload ''b'' 20 [2] ''image/jpeg'' 2048 ''hip.jpg''] s1"
  define s3 where "s3 = run [DoUpload ''c'' 30 [3] ''image/png'' 2048 ''arm.png''] s2"
  define j1 where "j1 = \<lparr>jobId = ''a'', originalName = ''knee.png'', mimeType = ''image/png'',
            fileSizeBytes = 2048, jobStatus = Uploaded,
            jobEnhancementType = ''Grayscale + Sharpening'', uploadedAt = 10,
            enhancedAt = None, processingTimeSeconds = None\<rparr>"
  define j2 where "j2 = \<lparr>jobId = ''b'', originalName = ''hip.jpg'', mimeType = ''image/jpeg'',
       fileSizeBytes = 2048, jobStatus = Uploaded,
       jobEnhancementType = ''Grayscale + Sharpening'', uploadedAt = 20,
       enhancedAt = None, processingTimeSeconds = None\<rparr>"
  define j3 where "j3 = \<lparr>jobId = ''c'', originalName = ''arm.png'', mimeType = ''image/png'',
       fileSizeBytes = 2048, jobStatus = Uploaded,
       jobEnhancementType = ''Grayscale + Sharpening'', uploadedAt = 30,
       enhancedAt = None, processingTimeSeconds = None\<rparr>"
  have u1: "Upload ''a'' 10 [1] ''image/png'' 2048 ''knee.png'' empty_service = Inr (j1, s1)"
    by (simp add: s1_def j1_def run_def Upload_def Insert_def Let_def empty_service_def)
  have t1: "jobs s1 = [j1]"
    by (simp add: s1_def j1_def run_def Upload_def Insert_def Let_def empty_service_def)
  have u2: "Upload ''b'' 20 [2] ''image/jpeg'' 2048 ''hip.jpg'' s1 = Inr (j2, s2)"
    by (simp add: s2_def j2_def run_def Upload_def Insert_def Let_def t1) (simp add: j1_def)
  have t2: "jobs s2 = [j1, j2]"
    by (simp add: s2_def j2_def run_def Upload_def Insert_def Let_def t1) (simp add: j1_def)
  have u3: "Upload ''c'' 30 [3] ''image/png'' 2048 ''arm.png'' s2 = Inr (j3, s3)"
    by (simp add: s3_def j3_def run_def Upload_def Insert_def Let_def t2) (simp add: j1_def j2_def)
  have r: "run [DoUpload ''a'' 10 [1] ''image/png'' 2048 ''knee.png'',
           DoUpload ''b'' 20 [2] ''image/jpeg'' 2048 ''hip.jpg'',
           DoUpload ''c'' 30 [3] ''image/png'' 2048 ''arm.png''] empty_service = s3"
    by (simp add: s3_def s2_def s1_def run_def)
  from GetHistory_most_recent_first
         [of s3 10 20 30 "''a''" "[1]" "''image/png''" 2048 "''knee.png''" j1 s1
             "''b''" "[2]" "''image/jpeg''" 2048 "''hip.jpg''" j2 s2
             "''c''" "[3]" "''image/png''" 2048 "''arm.png''" j3 s3]
  have "GetHistory s3 = [j3, j2, j1]" using u1 u2 u3 by simp
  then show ?thesis
    using u1 by (simp add: r) (simp add: j1_def j2_def j3_def s1_def)
qed

text \<open>
  Claim C9, on the server as the specification describes it. After any run of uploads and
  enhancements from the empty service, every job record in the store, and so every job
  that \<open>GetHistory\<close> returns, has the enhancement type "Grayscale + Sharpening", and so
  has the job returned by a further upload or enhancement.
\<close>

theorem enhancementType_fixed:
  "list_all (\<lambda>j. jobEnhancementType j = ''Grayscale + Sharpening'')
     (jobs (run ops empty_service)) \<and>
   list_all (\<lambda>j. jobEnhancementType j = ''Grayscale + Sharpening'')
     (GetHistory (run ops empty_service)) \<and>
   (case Upload newId now fileBytes declaredMimeType declaredSize filename
           (run ops empty_service) of
      Inl e \<Rightarrow> True
    | Inr (job, s') \<Rightarrow> jobEnhancementType job = ''Grayscale + Sharpening'') \<and>
   (case fst (Enhance_finish i result now' (run ops empty_service)) of
      Inl e \<Rightarrow> True
    | Inr job \<Rightarrow> jobEnhancementType job = ''Grayscale + Sharpening'')"
proof -
  define s where "s = run ops empty_service"
  have inv: "\<forall>j \<in> set (jobs s). jobEnhancementType j = ''Grayscale + Sharpening''"
    unfolding s_def by (rule run_keeps_type) (simp add: empty_service_def)
  have 1: "list_all (\<lambda>j. jobEnhancementType j = ''Grayscale + Sharpening'') (jobs s)"
    using inv by (simp add: list_all_iff)
  have "set (GetHistory s) = set (jobs s)" by (simp add: GetHistory_def ListAll_def)
  then have 2: "list_all (\<lambda>j. jobEnhancementType j = ''Grayscale + Sharpening'') (GetHistory s)"
    using inv by (simp add: list_all_iff)
  have 3: "(case Upload newId now fileBytes declaredMimeType declaredSize filename s of
      Inl e \<Rightarrow> True
    | Inr (job, s') \<Rightarrow> jobEnhancementType job = ''Grayscale + Sharpening'')"
    by (auto simp: Upload_def Let_def split: sum.splits)
  have 4: "(case fst (Enhance_finish i result now' s) of
      Inl e \<Rightarrow> True
    | Inr job \<Rightarrow> jobEnhancementType job = ''Grayscale + Sharpening'')"
  proof (cases "Get i (jobs s)")
    case None
    then show ?thesis by (simp add: Enhance_finish_def)
  next
    case (Some job)
    have "jobEnhancementType job = ''Grayscale + Sharpening''"
      using Get_in_table [OF Some] inv by blast
    then show ?thesis
      using Some by (auto simp: Enhance_finish_def Let_def split: Transformed.splits sum.splits)
  qed
  show ?thesis using 1 2 3 4 unfolding s_def by blast
qed

section \<open>The mock API\<close>

text \<open>
  Claim C10, as the code has it. Whatever the form data, the mock upload resolves, with
  \<open>success = true\<close> and with an id that depends on the random number only: characters 3 to
  11 of its base-36 rendering, hence at most 9 characters, and exactly 9 when that
  rendering has 11 characters or more.
\<close>

theorem uploadImage_always_succeeds:
  "\<exists>r. uploadImage formData random36 = Resolved r \<and> success r \<and>
      imageId r = take 9 (drop 2 random36) \<and>
      length (imageId r) = min 9 (length random36 - 2)"
  by (simp add: uploadImage_def substr_def)

text \<open>
  Claim C10 as it is worded fails: when \<open>Math.random()\<close> returns \<open>0.5\<close>, whose base-36
  rendering is \<open>0.i\<close>, the id is the single character \<open>i\<close>.
\<close>

theorem uploadImage_id_counterexample:
  "uploadImage () ''0.i'' =
     Resolved (UploadResponse True ''i'' ''Image uploaded successfully'' ''/mock-image-url'') \<and>
   length (imageId (UploadResponse True ''i'' ''Image uploaded successfully'' ''/mock-image-url''))
     \<noteq> 9"
  by (simp add: uploadImage_def substr_def)


end
